theory Spec2Isabelle
  imports Complex_Main "HOL-Library.Char_ord" "HOL-Library.List_Lexorder"
begin

section \<open>JavaScript values\<close>

text \<open>
  Response bodies, IPN payloads and decoded socket frames are JavaScript values. An
  object is a list of key/value pairs in its enumeration order (the order of
  \<^verbatim>\<open>Object.keys\<close>); its keys are pairwise distinct (\<open>wf_value\<close> below).
\<close>

datatype js_value =
    JUndefined
  | JNull
  | JBool bool
  | JNum real
  | JStr string
  | JArr "js_value list"
  | JObj "(string \<times> js_value) list"

text \<open>\<^verbatim>\<open>obj[key]\<close> on an object: the value stored under the key, \<^verbatim>\<open>undefined\<close> when absent.\<close>

definition lookup :: "(string \<times> js_value) list \<Rightarrow> string \<Rightarrow> js_value" where
  "lookup kvs k = (case map_of kvs k of None \<Rightarrow> JUndefined | Some v \<Rightarrow> v)"

text \<open>
  \<^verbatim>\<open>result[key] = v\<close>: an existing key keeps its place and gets the new value, a new
  key is added last.
\<close>

definition assign :: "(string \<times> js_value) list \<Rightarrow> string \<Rightarrow> js_value \<Rightarrow> (string \<times> js_value) list" where
  "assign obj k v =
     (if k \<in> set (map fst obj)
      then map (\<lambda>kv. if fst kv = k then (k, v) else kv) obj
      else obj @ [(k, v)])"

section \<open>lib/errors.js\<close>

text \<open>
  The \<^verbatim>\<open>code\<close> of an error: a number (an HTTP status), a string (Node and axios
  attach codes such as \<^verbatim>\<open>ECONNRESET\<close> or \<^verbatim>\<open>ERR_NETWORK\<close> to transport errors), or
  absent.
\<close>

datatype js_code = CodeNum int | CodeStr string | CodeUndefined

record NOWPaymentsError_t =
  name :: string
  message :: js_value
  code :: js_code
  data :: js_value

record APIError_t = NOWPaymentsError_t +
  statusCode :: int
  responseData :: js_value

text \<open>
  \<^verbatim>\<open>new APIError(message, statusCode, responseData)\<close>: the base constructor stores
  \<^verbatim>\<open>code = statusCode\<close> and \<^verbatim>\<open>data = responseData\<close>, then the subclass sets its
  name and its own two fields. \<open>message\<close> holds the constructor's argument as passed.
\<close>

definition APIError :: "js_value \<Rightarrow> int \<Rightarrow> js_value \<Rightarrow> APIError_t" where
  "APIError msg status body =
     \<lparr>name = ''APIError'', message = msg, code = CodeNum status, data = body,
      statusCode = status, responseData = body\<rparr>"

text \<open>
  What a request can throw: an \<open>APIError\<close>, the transport library's own error (its
  message, its code and, when the server answered, the response's status and body), or
  a \<^verbatim>\<open>TypeError\<close> of the language.
\<close>

datatype thrown =
    ThrownAPIError APIError_t
  | ThrownAxiosError string js_code "(int \<times> js_value) option"
  | ThrownTypeError string

fun error_code :: "thrown \<Rightarrow> js_code" where
  "error_code (ThrownAPIError e) = code e"
| "error_code (ThrownAxiosError m c r) = c"
| "error_code (ThrownTypeError m) = CodeUndefined"

fun error_response :: "thrown \<Rightarrow> (int \<times> js_value) option" where
  "error_response (ThrownAPIError e) = None"
| "error_response (ThrownAxiosError m c r) = r"
| "error_response (ThrownTypeError m) = None"

text \<open>
  \<^verbatim>\<open>error.response.data.message\<close>: reading a property of \<^verbatim>\<open>undefined\<close> or \<^verbatim>\<open>null\<close>
  throws, an object yields the stored value, any other value has no such property.
\<close>

fun data_message :: "js_value \<Rightarrow> thrown + js_value" where
  "data_message JUndefined = Inl (ThrownTypeError ''Cannot read properties of undefined (reading message)'')"
| "data_message JNull = Inl (ThrownTypeError ''Cannot read properties of null (reading message)'')"
| "data_message (JObj kvs) = Inr (lookup kvs ''message'')"
| "data_message v = Inr JUndefined"

section \<open>lib/constants.js\<close>

record retry_settings =
  MAX_RETRIES :: int
  BACKOFF_FACTOR :: int
  INITIAL_DELAY :: int

text \<open>
  The part of the module's exports the request executor and the socket client read.
  \<open>RETRY_CONFIG\<close> is what \<^verbatim>\<open>constants.RETRY_CONFIG\<close> evaluates to: the module exports
  \<^verbatim>\<open>DEFAULT_CONFIG\<close> (with the retry settings under \<^verbatim>\<open>DEFAULT_CONFIG.RETRY\<close>) and no
  \<^verbatim>\<open>RETRY_CONFIG\<close>, so the property is \<^verbatim>\<open>undefined\<close>.
\<close>

record constants_module =
  DEFAULT_CONFIG_RETRY :: retry_settings
  RETRY_CONFIG :: "retry_settings option"
  WEBSOCKET_ENDPOINTS_PRODUCTION :: string

definition constants :: constants_module where
  "constants =
     \<lparr>DEFAULT_CONFIG_RETRY = \<lparr>MAX_RETRIES = 3, BACKOFF_FACTOR = 2, INITIAL_DELAY = 1000\<rparr>,
      RETRY_CONFIG = None,
      WEBSOCKET_ENDPOINTS_PRODUCTION = ''wss://api.nowpayments.io/ws''\<rparr>"

section \<open>lib/index.js: the request executor\<close>

text \<open>
  One dispatch of the transport library ends in a response it accepts or in an error
  (message, code, and the response when the server answered with a rejected status).
\<close>

datatype axios_outcome =
    Response int js_value
  | Failure string js_code "(int \<times> js_value) option"

record request_config =
  method_name :: string
  url :: string

text \<open>
  The transport is a parameter: the outcome of the \<open>n\<close>-th dispatch (counted from 1)
  of a request. The executor's state counts the dispatches made and records the delays
  passed to \<^verbatim>\<open>_sleep\<close>, in order. The request interceptor (rate-limiter admission, start
  time) and the log line of a successful response change neither.
\<close>

type_synonym transport = "request_config \<Rightarrow> nat \<Rightarrow> axios_outcome"

record exec_state =
  dispatches :: nat
  slept :: "int list"

definition exec_init :: exec_state where
  "exec_init = \<lparr>dispatches = 0, slept = []\<rparr>"

text \<open>The response interceptor installed by \<^verbatim>\<open>_setupInterceptors\<close>.\<close>

definition response_interceptor :: "axios_outcome \<Rightarrow> thrown + (int \<times> js_value)" where
  "response_interceptor out =
     (case out of
        Response status body \<Rightarrow> Inr (status, body)
      | Failure msg c resp \<Rightarrow>
          (case resp of
             Some (status, body) \<Rightarrow>
               (case data_message body of
                  Inl e \<Rightarrow> Inl e
                | Inr m \<Rightarrow> Inl (ThrownAPIError (APIError m status body)))
           | None \<Rightarrow> Inl (ThrownAxiosError msg c None)))"

text \<open>\<^verbatim>\<open>this.client.request(config)\<close>: one more dispatch, then the interceptor.\<close>

definition client_request ::
  "transport \<Rightarrow> request_config \<Rightarrow> exec_state \<Rightarrow> (thrown + (int \<times> js_value)) \<times> exec_state" where
  "client_request tr config st =
     (response_interceptor (tr config (Suc (dispatches st))),
      st\<lparr>dispatches := Suc (dispatches st)\<rparr>)"

definition makeRequest ::
  "transport \<Rightarrow> request_config \<Rightarrow> exec_state \<Rightarrow> (thrown + js_value) \<times> exec_state" where
  "makeRequest tr config st =
     (case client_request tr config st of
        (Inr (status, body), st') \<Rightarrow> (Inr body, st')
      | (Inl err, st') \<Rightarrow>
          (case error_response err of
             Some (status, body) \<Rightarrow>
               (case data_message body of
                  Inl e \<Rightarrow> (Inl e, st')
                | Inr m \<Rightarrow> (Inl (ThrownAPIError (APIError m status body)), st'))
           | None \<Rightarrow> (Inl err, st')))"

text \<open>
  \<^verbatim>\<open>error.code === 429 || (error.code >= 500 && error.code <= 599)\<close>. A string is
  never strictly equal to 429, and the two comparisons convert it to a number first.
  That conversion of the language is a parameter: \<open>to_number s\<close> is the number the
  string converts to, \<open>None\<close> when it converts to \<^verbatim>\<open>NaN\<close> (every comparison with
  \<^verbatim>\<open>NaN\<close> is false, as is every comparison of the absent code, which converts to
  \<^verbatim>\<open>NaN\<close> too).
\<close>

fun isRetryable :: "(string \<Rightarrow> real option) \<Rightarrow> thrown \<Rightarrow> bool" where
  "isRetryable to_number err =
     (case error_code err of
        CodeNum n \<Rightarrow> n = 429 \<or> (500 \<le> n \<and> n \<le> 599)
      | CodeStr s \<Rightarrow> (case to_number s of None \<Rightarrow> False | Some v \<Rightarrow> 500 \<le> v \<and> v \<le> 599)
      | CodeUndefined \<Rightarrow> False)"

text \<open>
  The argument of \<^verbatim>\<open>_sleep\<close>:
  \<^verbatim>\<open>constants.RETRY_CONFIG.INITIAL_DELAY * Math.pow(constants.RETRY_CONFIG.BACKOFF_FACTOR, attempt - 1)\<close>.
  Reading a property of an undefined \<^verbatim>\<open>RETRY_CONFIG\<close> throws.
\<close>

definition retry_delay :: "constants_module \<Rightarrow> int \<Rightarrow> thrown + int" where
  "retry_delay C attempt =
     (case RETRY_CONFIG C of
        None \<Rightarrow> Inl (ThrownTypeError ''Cannot read properties of undefined (reading INITIAL_DELAY)'')
      | Some rc \<Rightarrow> Inr (INITIAL_DELAY rc * BACKOFF_FACTOR rc ^ nat (attempt - 1)))"

text \<open>
  The loop of \<^verbatim>\<open>_retryRequest\<close>, from a given attempt on. Falling out of the loop
  returns \<^verbatim>\<open>undefined\<close>. The constants module is a parameter, so that the loop can
  be studied for the module as it is and for one that defines \<open>RETRY_CONFIG\<close>.
\<close>

function retry_loop ::
  "constants_module \<Rightarrow> (string \<Rightarrow> real option) \<Rightarrow> transport \<Rightarrow> request_config \<Rightarrow> int \<Rightarrow> int
     \<Rightarrow> exec_state \<Rightarrow> (thrown + js_value) \<times> exec_state" where
  "retry_loop C to_number tr config retries attempt st =
     (if attempt \<le> retries then
        (case makeRequest tr config st of
           (Inr body, st') \<Rightarrow> (Inr body, st')
         | (Inl err, st') \<Rightarrow>
             if attempt = retries \<or> \<not> isRetryable to_number err then (Inl err, st')
             else
               (case retry_delay C attempt of
                  Inl e \<Rightarrow> (Inl e, st')
                | Inr ms \<Rightarrow>
                    retry_loop C to_number tr config retries (attempt + 1)
                      (st'\<lparr>slept := slept st' @ [ms]\<rparr>)))
      else (Inr JUndefined, st))"
  by pat_completeness auto
termination
  by (relation "measure (\<lambda>(C, to_number, tr, config, retries, attempt, st). nat (retries + 1 - attempt))")
     auto

text \<open>The default value of the parameter \<^verbatim>\<open>retries = 3\<close>.\<close>

definition max_attempts :: "int option \<Rightarrow> int" where
  "max_attempts retries = (case retries of None \<Rightarrow> 3 | Some r \<Rightarrow> r)"

text \<open>\<^verbatim>\<open>_retryRequest(config, retries = 3)\<close> over a constants module.\<close>

definition retryRequest_with ::
  "constants_module \<Rightarrow> (string \<Rightarrow> real option) \<Rightarrow> transport \<Rightarrow> request_config \<Rightarrow> int option
     \<Rightarrow> exec_state \<Rightarrow> (thrown + js_value) \<times> exec_state" where
  "retryRequest_with C to_number tr config retries st =
     retry_loop C to_number tr config (max_attempts retries) 1 st"

text \<open>The executor of the library: the loop over the module \<open>constants\<close>.\<close>

definition retryRequest ::
  "(string \<Rightarrow> real option) \<Rightarrow> transport \<Rightarrow> request_config \<Rightarrow> int option \<Rightarrow> exec_state
     \<Rightarrow> (thrown + js_value) \<times> exec_state" where
  "retryRequest = retryRequest_with constants"

text \<open>A public operation, as every one of them calls the executor: \<^verbatim>\<open>getStatus()\<close>.\<close>

definition getStatus ::
  "(string \<Rightarrow> real option) \<Rightarrow> transport \<Rightarrow> exec_state \<Rightarrow> (thrown + js_value) \<times> exec_state" where
  "getStatus to_number tr st =
     retryRequest to_number tr \<lparr>method_name = ''get'', url = ''/status''\<rparr> None st"

section \<open>lib/WebSocketClient.js\<close>

text \<open>
  The client runs on an event loop. Its state is the object's fields together with
  the part of the environment its callbacks read and write: the clock, the timers that
  are armed, the events emitted to subscribers and the commands sent to the socket.
  Times and delays are non-negative integers of milliseconds; a timer armed with delay
  \<open>d\<close> is due at \<open>now + d\<close>.
\<close>

datatype ready_state = CONNECTING | OPEN | CLOSING | CLOSED

record ws_options =
  maxReconnectAttempts :: nat
  reconnectDelay :: nat
  pingInterval :: nat
  pongTimeout :: nat
  endpoint :: string

text \<open>The constructor's optional argument: each option given or not.\<close>

record ws_options_arg =
  arg_maxReconnectAttempts :: "nat option"
  arg_reconnectDelay :: "nat option"
  arg_pingInterval :: "nat option"
  arg_pongTimeout :: "nat option"
  arg_endpoint :: "string option"

text \<open>The three closures the client hands to \<^verbatim>\<open>setInterval\<close> and \<^verbatim>\<open>setTimeout\<close>.\<close>

datatype timer_callback = PingTick | PongExpired | ReconnectNow

record timer =
  handle :: nat
  due :: nat
  callback :: timer_callback
  period :: "nat option"

datatype ws_event =
    Ev_connected
  | Ev_disconnected string
  | Ev_reconnecting nat
  | Ev_payment_update js_value
  | Ev_pong int
  | Ev_error string string

datatype ws_command =
    Cmd_open string string
  | Cmd_ping
  | Cmd_removeAllListeners
  | Cmd_close nat string

text \<open>
  \<open>pingInterval_handle\<close>, \<open>pongTimeout_handle\<close> and \<open>reconnectTimer\<close> are the fields
  \<^verbatim>\<open>this.pingInterval\<close>, \<^verbatim>\<open>this.pongTimeout\<close> and \<^verbatim>\<open>this.reconnectTimer\<close> (the first
  two renamed: the options have fields of the same names). \<open>ws\<close> is \<^verbatim>\<open>this.ws\<close>: no
  socket, or the socket with its \<^verbatim>\<open>readyState\<close>; the handlers of
  \<^verbatim>\<open>_setupEventHandlers\<close> are attached to it for as long as the field holds it.
\<close>

record client =
  apiKey :: string
  options :: ws_options
  reconnectAttempts :: nat
  isConnected :: bool
  lastPing :: "nat option"
  pongTimeout_handle :: "nat option"
  pingInterval_handle :: "nat option"
  reconnectTimer :: "nat option"
  ws :: "ready_state option"
  now :: nat
  timers :: "timer list"
  next_handle :: nat
  emitted :: "ws_event list"
  commands :: "ws_command list"

text \<open>\<^verbatim>\<open>x || d\<close> on an optional number and on an optional string.\<close>

definition or_default :: "nat option \<Rightarrow> nat \<Rightarrow> nat" where
  "or_default x d = (case x of None \<Rightarrow> d | Some n \<Rightarrow> if n = 0 then d else n)"

definition or_default_str :: "string option \<Rightarrow> string \<Rightarrow> string" where
  "or_default_str x d = (case x of None \<Rightarrow> d | Some v \<Rightarrow> if v = [] then d else v)"

text \<open>The constructor, on a clock that starts at 0 with no timer armed.\<close>

definition NOWPaymentsWebSocket :: "string \<Rightarrow> ws_options_arg \<Rightarrow> client" where
  "NOWPaymentsWebSocket key arg =
     \<lparr>apiKey = key,
      options =
        \<lparr>maxReconnectAttempts = or_default (arg_maxReconnectAttempts arg) 5,
         reconnectDelay = or_default (arg_reconnectDelay arg) 1000,
         pingInterval = or_default (arg_pingInterval arg) 30000,
         pongTimeout = or_default (arg_pongTimeout arg) 5000,
         endpoint = or_default_str (arg_endpoint arg) (WEBSOCKET_ENDPOINTS_PRODUCTION constants)\<rparr>,
      reconnectAttempts = 0,
      isConnected = False,
      lastPing = None,
      pongTimeout_handle = None,
      pingInterval_handle = None,
      reconnectTimer = None,
      ws = None,
      now = 0,
      timers = [],
      next_handle = 0,
      emitted = [],
      commands = []\<rparr>"

definition no_options :: ws_options_arg where
  "no_options =
     \<lparr>arg_maxReconnectAttempts = None, arg_reconnectDelay = None, arg_pingInterval = None,
      arg_pongTimeout = None, arg_endpoint = None\<rparr>"

subsection \<open>Timers and events\<close>

definition setTimeout_js :: "timer_callback \<Rightarrow> nat \<Rightarrow> client \<Rightarrow> client" where
  "setTimeout_js cb delay s =
     s\<lparr>timers := timers s @ [\<lparr>handle = next_handle s, due = now s + delay, callback = cb, period = None\<rparr>],
       next_handle := Suc (next_handle s)\<rparr>"

definition setInterval_js :: "timer_callback \<Rightarrow> nat \<Rightarrow> client \<Rightarrow> client" where
  "setInterval_js cb delay s =
     s\<lparr>timers := timers s @ [\<lparr>handle = next_handle s, due = now s + delay, callback = cb, period = Some delay\<rparr>],
       next_handle := Suc (next_handle s)\<rparr>"

text \<open>
  \<^verbatim>\<open>clearTimeout\<close> and \<^verbatim>\<open>clearInterval\<close>: the timer of that handle is disarmed; nothing
  happens for \<^verbatim>\<open>null\<close> or for a handle whose timer is gone.
\<close>

definition clearTimeout_js :: "nat option \<Rightarrow> client \<Rightarrow> client" where
  "clearTimeout_js h s =
     (case h of None \<Rightarrow> s | Some i \<Rightarrow> s\<lparr>timers := filter (\<lambda>x. handle x \<noteq> i) (timers s)\<rparr>)"

definition emit :: "ws_event \<Rightarrow> client \<Rightarrow> client" where
  "emit e s = s\<lparr>emitted := emitted s @ [e]\<rparr>"

definition send :: "ws_command \<Rightarrow> client \<Rightarrow> client" where
  "send c s = s\<lparr>commands := commands s @ [c]\<rparr>"

subsection \<open>The methods\<close>

definition close :: "client \<Rightarrow> client" where
  "close s =
     (let s1 = clearTimeout_js (pingInterval_handle s) s;
          s2 = clearTimeout_js (pongTimeout_handle s1) s1;
          s3 = clearTimeout_js (reconnectTimer s2) s2;
          s4 = (case ws s3 of
                  None \<Rightarrow> s3
                | Some rs \<Rightarrow>
                    (let s5 = send Cmd_removeAllListeners s3;
                         s6 = (if rs = OPEN \<or> rs = CONNECTING
                               then send (Cmd_close 1000 ''Client closed connection'') s5 else s5)
                     in s6\<lparr>ws := None\<rparr>))
      in s4\<lparr>isConnected := False\<rparr>)"

text \<open>
  \<^verbatim>\<open>_startPingPong\<close> arms the interval; \<open>ping_tick\<close> is the interval's callback.
\<close>

definition startPingPong :: "client \<Rightarrow> client" where
  "startPingPong s =
     (setInterval_js PingTick (pingInterval (options s)) s)\<lparr>pingInterval_handle := Some (next_handle s)\<rparr>"

definition ping_tick :: "client \<Rightarrow> client" where
  "ping_tick s =
     (if isConnected s then
        (let s1 = s\<lparr>lastPing := Some (now s)\<rparr>;
             s2 = send Cmd_ping s1
         in (setTimeout_js PongExpired (pongTimeout (options s2)) s2)\<lparr>pongTimeout_handle := Some (next_handle s2)\<rparr>)
      else s)"

definition connect :: "client \<Rightarrow> client" where
  "connect s =
     (let s1 = (if ws s \<noteq> None then close s else s);
          s2 = (send (Cmd_open (endpoint (options s1)) (apiKey s1)) s1)\<lparr>ws := Some CONNECTING\<rparr>
      in startPingPong s2)"

definition handleDisconnect :: "nat \<Rightarrow> string \<Rightarrow> client \<Rightarrow> client" where
  "handleDisconnect close_code reason s =
     (let s1 = s\<lparr>isConnected := False\<rparr>;
          s2 = clearTimeout_js (pingInterval_handle s1) s1;
          s3 = clearTimeout_js (pongTimeout_handle s2) s2;
          s4 = emit (Ev_disconnected reason) s3;
          s5 = (if reconnectTimer s4 \<noteq> None then clearTimeout_js (reconnectTimer s4) s4 else s4)
      in if reconnectAttempts s5 < maxReconnectAttempts (options s5) then
           (let s6 = s5\<lparr>reconnectAttempts := reconnectAttempts s5 + 1\<rparr>;
                delay = reconnectDelay (options s6) * 2 ^ (reconnectAttempts s6 - 1);
                s7 = emit (Ev_reconnecting (reconnectAttempts s6)) s6
            in (setTimeout_js ReconnectNow delay s7)\<lparr>reconnectTimer := Some (next_handle s7)\<rparr>)
         else emit (Ev_error ''MaxReconnectError'' ''Maximum reconnection attempts reached'') s5)"

subsection \<open>The socket's event handlers\<close>

definition on_open :: "client \<Rightarrow> client" where
  "on_open s = emit Ev_connected (s\<lparr>isConnected := True, reconnectAttempts := 0\<rparr>)"

text \<open>
  A frame is given by what \<^verbatim>\<open>JSON.parse\<close> makes of it: the parse error's message, or
  the decoded value. Reading \<^verbatim>\<open>message.type\<close> of \<^verbatim>\<open>null\<close> throws inside the same
  \<^verbatim>\<open>try\<close>.
\<close>

definition on_message :: "string + js_value \<Rightarrow> client \<Rightarrow> client" where
  "on_message frame s =
     (case frame of
        Inl parse_error \<Rightarrow> emit (Ev_error ''MessageParseError'' parse_error) s
      | Inr v \<Rightarrow>
          (case v of
             JNull \<Rightarrow> emit (Ev_error ''MessageParseError'' ''Cannot read properties of null (reading type)'') s
           | JObj kvs \<Rightarrow> if lookup kvs ''type'' = JStr ''payment_update'' then emit (Ev_payment_update v) s else s
           | _ \<Rightarrow> s))"

definition on_pong :: "client \<Rightarrow> client" where
  "on_pong s =
     (let s1 = clearTimeout_js (pongTimeout_handle s) s;
          latency = int (now s1) - (case lastPing s1 of None \<Rightarrow> 0 | Some t \<Rightarrow> int t)
      in emit (Ev_pong latency) s1)"

definition on_close :: "nat \<Rightarrow> string \<Rightarrow> client \<Rightarrow> client" where
  "on_close close_code reason s = handleDisconnect close_code reason s"

definition on_error :: "string \<Rightarrow> client \<Rightarrow> client" where
  "on_error msg s = emit (Ev_error ''WebSocketError'' msg) s"

subsection \<open>The event loop\<close>

text \<open>
  What happens to a client: the event loop fires an armed timer, the socket reports
  something at some time, or the caller calls \<^verbatim>\<open>connect()\<close> or \<^verbatim>\<open>close()\<close> at some
  time. Timers fire in the order of their due times, and the clock passes no armed
  timer: a timer fires only when none is due earlier, and anything else happens at a
  time that is not before the clock and not after a due time.
\<close>

datatype ws_input = WsOpen | WsMessage "string + js_value" | WsPong | WsClose nat string | WsError string

datatype event = Fire nat | Transport nat ws_input | CallConnect nat | CallClose nat

definition may_happen_at :: "nat \<Rightarrow> client \<Rightarrow> bool" where
  "may_happen_at t s = (now s \<le> t \<and> list_all (\<lambda>x. t \<le> due x) (timers s))"

text \<open>
  Firing a timer: the clock is at its due time, a timeout is gone and an interval is
  armed again one period later; then its callback runs.
\<close>

definition fire :: "timer \<Rightarrow> client \<Rightarrow> client" where
  "fire x s =
     (let rest = filter (\<lambda>y. handle y \<noteq> handle x) (timers s);
          s1 = s\<lparr>now := due x,
                 timers := (case period x of None \<Rightarrow> rest | Some p \<Rightarrow> rest @ [x\<lparr>due := due x + p\<rparr>])\<rparr>
      in case callback x of
           PingTick \<Rightarrow> ping_tick s1
         | PongExpired \<Rightarrow> handleDisconnect 1001 ''Pong timeout'' s1
         | ReconnectNow \<Rightarrow> connect s1)"

text \<open>
  What a socket in a given state can report, and what the report does to the state
  before the handler runs.
\<close>

fun reports :: "ready_state \<Rightarrow> ws_input \<Rightarrow> bool" where
  "reports rs WsOpen = (rs = CONNECTING)"
| "reports rs (WsMessage frame) = (rs = OPEN)"
| "reports rs WsPong = (rs = OPEN)"
| "reports rs (WsClose close_code reason) = (rs \<noteq> CLOSED)"
| "reports rs (WsError msg) = (rs \<noteq> CLOSED)"

fun deliver :: "ws_input \<Rightarrow> client \<Rightarrow> client" where
  "deliver WsOpen s = on_open (s\<lparr>ws := Some OPEN\<rparr>)"
| "deliver (WsMessage frame) s = on_message frame s"
| "deliver WsPong s = on_pong s"
| "deliver (WsClose close_code reason) s = on_close close_code reason (s\<lparr>ws := Some CLOSED\<rparr>)"
| "deliver (WsError msg) s = on_error msg s"

text \<open>
  One step; \<open>None\<close> when the event cannot happen in the state. A report of a socket
  the client holds no more reaches no handler: only the clock moves.
\<close>

definition step :: "client \<Rightarrow> event \<Rightarrow> client option" where
  "step s e =
     (case e of
        Fire h \<Rightarrow>
          (case find (\<lambda>x. handle x = h) (timers s) of
             None \<Rightarrow> None
           | Some x \<Rightarrow> if list_all (\<lambda>y. due x \<le> due y) (timers s) then Some (fire x s) else None)
      | Transport t inp \<Rightarrow>
          (if may_happen_at t s then
             (case ws s of
                None \<Rightarrow> Some (s\<lparr>now := t\<rparr>)
              | Some rs \<Rightarrow> if reports rs inp then Some (deliver inp (s\<lparr>now := t\<rparr>)) else None)
           else None)
      | CallConnect t \<Rightarrow> if may_happen_at t s then Some (connect (s\<lparr>now := t\<rparr>)) else None
      | CallClose t \<Rightarrow> if may_happen_at t s then Some (close (s\<lparr>now := t\<rparr>)) else None)"

fun run :: "client \<Rightarrow> event list \<Rightarrow> client option" where
  "run s [] = Some s"
| "run s (e # es) = (case step s e of None \<Rightarrow> None | Some s' \<Rightarrow> run s' es)"

section \<open>lib/utils.js and \<^verbatim>\<open>verifyIPN\<close>\<close>

text \<open>
  \<^verbatim>\<open>sortObject\<close>: a value that is no object (or is \<^verbatim>\<open>null\<close>) is returned as it is, an
  array is mapped, and an object is rebuilt from its sorted keys by assigning, key after
  key, the sorted value found under the key. \<^verbatim>\<open>sort()\<close> with no comparator orders
  strings by their code units, which is the lexicographic order of \<open>string\<close>.
\<close>

function (sequential) sortObject :: "js_value \<Rightarrow> js_value" where
  "sortObject (JArr xs) = JArr (map sortObject xs)"
| "sortObject (JObj kvs) =
     JObj (fold (\<lambda>key result. assign result key (sortObject (lookup kvs key))) (sort (map fst kvs)) [])"
| "sortObject v = v"
  by pat_completeness auto
termination
proof (relation "measure size")
  show "wf (measure size)" by simp
next
  fix xs :: "js_value list" and x
  assume "x \<in> set xs"
  then have "size x < Suc (size_list size xs)"
    by (induction xs) auto
  then show "(x, JArr xs) \<in> measure size" by simp
next
  fix kvs :: "(string \<times> js_value) list" and key :: string
  have "size (lookup kvs key) < Suc (size_list (size_prod (\<lambda>x. 0) size) kvs)"
    by (induction kvs) (auto simp: lookup_def split: option.splits)
  then show "(lookup kvs key, JObj kvs) \<in> measure size" by simp
qed

text \<open>
  The cryptographic primitive and the serializer are parameters: \<open>hmac secret text\<close>
  is \<^verbatim>\<open>crypto.createHmac('sha512', secret).update(text).digest('hex')\<close>, and
  \<open>stringify\<close> is \<^verbatim>\<open>JSON.stringify\<close>.
\<close>

definition generateSignature ::
  "(js_value \<Rightarrow> string) \<Rightarrow> (string \<Rightarrow> string \<Rightarrow> string) \<Rightarrow> js_value \<Rightarrow> string \<Rightarrow> string" where
  "generateSignature stringify hmac payload secret =
     (let sortedData = sortObject payload;
          dataString = stringify sortedData
      in hmac secret dataString)"

text \<open>
  \<^verbatim>\<open>verifyIPN\<close>: the secret is the client's \<^verbatim>\<open>ipnSecret\<close>, absent or a string; an
  absent or empty one throws.
\<close>

definition verifyIPN ::
  "(js_value \<Rightarrow> string) \<Rightarrow> (string \<Rightarrow> string \<Rightarrow> string) \<Rightarrow> string option \<Rightarrow> js_value \<Rightarrow> string
     \<Rightarrow> string + bool" where
  "verifyIPN stringify hmac ipnSecret ipnData signature =
     (case ipnSecret of
        None \<Rightarrow> Inl ''IPN secret key is not configured''
      | Some secret \<Rightarrow>
          if secret = [] then Inl ''IPN secret key is not configured''
          else Inr (generateSignature stringify hmac ipnData secret = signature))"

section \<open>Notions the properties are stated with\<close>

subsection \<open>Requests\<close>


text \<open>
  A dispatch fails retryably when the server answered 429 or 5xx (with a body of which
  \<^verbatim>\<open>message\<close> can be read).
\<close>

definition retryable_failure :: "axios_outcome \<Rightarrow> bool" where
  "retryable_failure out =
     (case out of
        Response status body \<Rightarrow> False
      | Failure msg c resp \<Rightarrow>
          (case resp of
             Some (status, body) \<Rightarrow>
               (status = 429 \<or> (500 \<le> status \<and> status \<le> 599)) \<and> body \<noteq> JNull \<and> body \<noteq> JUndefined
           | None \<Rightarrow> False))"

text \<open>
  Three transports: one whose server answers 503 twice and then 200, one whose server
  answers 404, and one that fails without a response and with the string \<^verbatim>\<open>'503'\<close> as
  its code.
\<close>

definition svc_down :: transport where
  "svc_down config n =
     (if n \<le> 2
      then Failure ''Request failed with status code 503'' (CodeStr ''ERR_BAD_RESPONSE'')
             (Some (503, JObj [(''message'', JStr ''Service Unavailable'')]))
      else Response 200 (JObj [(''message'', JStr ''OK'')]))"


definition odd_code :: transport where
  "odd_code config n = Failure ''socket hang up'' (CodeStr ''503'') None"

text \<open>
  A conversion to run the executor on: a string of decimal digits converts to the
  number it denotes, and the other strings used here (names in letters and underscores)
  to \<^verbatim>\<open>NaN\<close>, as in the language.
\<close>

definition decimal_to_number :: "string \<Rightarrow> real option" where
  "decimal_to_number s =
     (if s \<noteq> [] \<and> list_all (\<lambda>c. c \<in> set ''0123456789'') s
      then Some (real (foldl (\<lambda>n c. 10 * n + (of_char c - 48)) 0 s))
      else None)"

definition status_request :: request_config where
  "status_request = \<lparr>method_name = ''get'', url = ''/status''\<rparr>"

subsection \<open>The socket client\<close>

text \<open>
  A probe is outstanding from the ping until its pong or its deadline: as long as the
  pong timeout armed with it is armed.
\<close>

definition outstanding :: "client \<Rightarrow> nat" where
  "outstanding s = length (filter (\<lambda>x. callback x = PongExpired) (timers s))"


definition disconnected_events :: "client \<Rightarrow> nat" where
  "disconnected_events s =
     length (filter (\<lambda>e. case e of Ev_disconnected reason \<Rightarrow> True | _ \<Rightarrow> False) (emitted s))"

text \<open>What is looked at after a scenario: the attempt counter, the armed timers, the events.\<close>

definition observe :: "client \<Rightarrow> nat \<times> timer list \<times> ws_event list" where
  "observe s = (reconnectAttempts s, timers s, emitted s)"



text \<open>
  The steps in which \<^verbatim>\<open>_handleDisconnect\<close> runs: a close reported by a socket the
  client holds, and the expiry of a pong timeout. \<open>disconnect_count s evs\<close> is their
  number along the run of \<open>evs\<close> from \<open>s\<close>. No reconnection succeeds along a run in
  which no socket reports open.
\<close>

definition handles_disconnect :: "client \<Rightarrow> event \<Rightarrow> bool" where
  "handles_disconnect s e =
     (case e of
        Fire h \<Rightarrow>
          (case find (\<lambda>x. handle x = h) (timers s) of
             None \<Rightarrow> False
           | Some x \<Rightarrow> callback x = PongExpired)
      | Transport t inp \<Rightarrow> (case inp of WsClose close_code reason \<Rightarrow> ws s \<noteq> None | _ \<Rightarrow> False)
      | _ \<Rightarrow> False)"

fun disconnect_count :: "client \<Rightarrow> event list \<Rightarrow> nat" where
  "disconnect_count s [] = 0"
| "disconnect_count s (e # es) =
     (case step s e of
        None \<Rightarrow> 0
      | Some s' \<Rightarrow> (if handles_disconnect s e then 1 else 0) + disconnect_count s' es)"




text \<open>
  A timer is tracked when the field that belongs to its callback holds its handle (and
  an interval has the configured period, a timeout none). The invariant of the clients whose pong
  timeout is shorter than their ping interval: every armed timer is tracked, every
  pong deadline is due before every ping tick, at most one pong deadline is armed, and
  a client without a socket has no timer.
\<close>

definition tracked :: "client \<Rightarrow> timer \<Rightarrow> bool" where
  "tracked s x =
     (case callback x of
        PingTick \<Rightarrow> pingInterval_handle s = Some (handle x) \<and> period x = Some (pingInterval (options s))
      | PongExpired \<Rightarrow> pongTimeout_handle s = Some (handle x) \<and> period x = None
      | ReconnectNow \<Rightarrow> reconnectTimer s = Some (handle x) \<and> period x = None)"

definition pong_before_tick :: "timer list \<Rightarrow> bool" where
  "pong_before_tick ts =
     list_all (\<lambda>p. callback p = PongExpired \<longrightarrow>
                 list_all (\<lambda>i. callback i = PingTick \<longrightarrow> due p < due i) ts) ts"

definition timers_inv :: "client \<Rightarrow> bool" where
  "timers_inv s =
     (pongTimeout (options s) < pingInterval (options s)
      \<and> list_all (tracked s) (timers s)
      \<and> pong_before_tick (timers s)
      \<and> outstanding s \<le> 1
      \<and> (ws s = None \<longrightarrow> timers s = []))"

text \<open>
  Scenarios. \<open>default_client\<close> has the default options. \<open>session_lost\<close>: connect,
  open, and the socket closes. \<open>four_failed_reconnects\<close>: four times the reconnect
  timer fires and the new socket closes without opening; \<open>fifth_failed_reconnect\<close>
  once more; \<open>exhausted\<close> is all of them, six closes. \<open>overlapping\<close> are options with a ping interval (1000) shorter than the
  pong timeout (5000), and \<open>two_ticks\<close> two pings without a pong between them;
  \<open>one_tick\<close> is one ping of the default client, \<open>closed_once\<close> and
  \<open>closed_twice\<close> one and two calls of \<^verbatim>\<open>close()\<close> after it. \<open>six_closes\<close> are
  the six closes of \<open>exhausted\<close>, from the open session on. \<open>late_pong\<close> are options
  with a ping interval (3000) shorter than the pong timeout. \<open>leaked_with_five_closes\<close>,
  after \<open>two_ticks\<close> of \<open>overlapping\<close>: five times a socket closes, and between the
  second and the third close the pong timeout of the first ping expires.
\<close>

definition default_client :: client where
  "default_client = NOWPaymentsWebSocket ''key'' no_options"

definition session_lost :: "event list" where
  "session_lost = [CallConnect 0, Transport 100 WsOpen, Transport 200 (WsClose 1006 [])]"

definition four_failed_reconnects :: "event list" where
  "four_failed_reconnects =
     [Fire 1, Transport 1300 (WsClose 1006 []),
      Fire 3, Transport 3400 (WsClose 1006 []),
      Fire 5, Transport 7500 (WsClose 1006 []),
      Fire 7, Transport 15600 (WsClose 1006 [])]"

definition fifth_failed_reconnect :: "event list" where
  "fifth_failed_reconnect = [Fire 9, Transport 31700 (WsClose 1006 [])]"

definition overlapping :: ws_options_arg where
  "overlapping = no_options\<lparr>arg_pingInterval := Some 1000\<rparr>"

definition two_ticks :: "event list" where
  "two_ticks = [CallConnect 0, Transport 10 WsOpen, Fire 0, Fire 0]"

definition session_open :: "event list" where
  "session_open = [CallConnect 0, Transport 100 WsOpen]"

definition one_tick :: "event list" where
  "one_tick = [CallConnect 0, Transport 100 WsOpen, Fire 0]"

definition closed_once :: "event list" where
  "closed_once = [CallConnect 0, Transport 100 WsOpen, Fire 0, CallClose 31000]"

definition closed_twice :: "event list" where
  "closed_twice = [CallConnect 0, Transport 100 WsOpen, Fire 0, CallClose 31000, CallClose 32000]"

definition exhausted :: "event list" where
  "exhausted = session_lost @ four_failed_reconnects @ fifth_failed_reconnect"



definition leaked_with_five_closes :: "event list" where
  "leaked_with_five_closes =
     [Transport 2500 (WsClose 1006 []),
      Fire 3, Transport 3600 (WsClose 1006 []),
      Fire 5, Fire 1, Transport 6100 (WsClose 1006 []),
      Fire 8, Transport 14200 (WsClose 1006 []),
      Fire 10, Transport 30300 (WsClose 1006 [])]"

text \<open>The state a run ends in (the start state when the run cannot happen).\<close>

definition state_after :: "client \<Rightarrow> event list \<Rightarrow> client" where
  "state_after c evs = (case run c evs of None \<Rightarrow> c | Some s \<Rightarrow> s)"

subsection \<open>Payloads\<close>

text \<open>
  A value is well formed when no object in it has a key twice. Two values have the
  same content when they are equal up to the order of the keys of their objects, at
  every depth: arrays element by element, objects with the same keys and, under each
  key, values of the same content.
\<close>

fun wf_value :: "js_value \<Rightarrow> bool" where
  "wf_value (JArr xs) = list_all wf_value xs"
| "wf_value (JObj kvs) = (distinct (map fst kvs) \<and> list_all (\<lambda>kv. wf_value (snd kv)) kvs)"
| "wf_value v = True"

function (sequential) same_content :: "js_value \<Rightarrow> js_value \<Rightarrow> bool" where
  "same_content (JArr xs) (JArr ys) = list_all2 same_content xs ys"
| "same_content (JObj a) (JObj b) =
     (set (map fst a) = set (map fst b)
      \<and> list_all (\<lambda>k. same_content (lookup a k) (lookup b k)) (map fst a))"
| "same_content v w = (v = w)"
  by pat_completeness auto
termination
proof (relation "measure (\<lambda>(v, w). size v)")
  show "wf (measure (\<lambda>(v, w). size v))" by simp
next
  fix xs ys :: "js_value list" and x y
  assume "x \<in> set xs"
  then have "size x < Suc (size_list size xs)"
    by (induction xs) auto
  then show "((x, y), JArr xs, JArr ys) \<in> measure (\<lambda>(v, w). size v)" by simp
next
  fix a b :: "(string \<times> js_value) list" and k :: string
  have "size (lookup a k) < Suc (size_list (size_prod (\<lambda>x. 0) size) a)"
    by (induction a) (auto simp: lookup_def split: option.splits)
  then show "((lookup a k, lookup b k), JObj a, JObj b) \<in> measure (\<lambda>(v, w). size v)" by simp
qed

text \<open>Two payloads of the same content, and toy parameters to run the signature on.\<close>

definition payload_a :: js_value where
  "payload_a =
     JObj [(''payment_id'', JStr ''42''),
           (''fee'', JObj [(''currency'', JStr ''btc''), (''amount'', JNum 1)])]"

definition payload_b :: js_value where
  "payload_b =
     JObj [(''fee'', JObj [(''amount'', JNum 1), (''currency'', JStr ''btc'')]),
           (''payment_id'', JStr ''42'')]"

fun toy_stringify :: "js_value \<Rightarrow> string" where
  "toy_stringify (JObj kvs) = concat (map fst kvs)"
| "toy_stringify v = []"

definition toy_hmac :: "string \<Rightarrow> string \<Rightarrow> string" where
  "toy_hmac secret text = secret @ text"

section \<open>The request executor\<close>



lemma makeRequest_retryable:
  assumes "retryable_failure (tr config (Suc (dispatches st)))"
  shows "\<exists>err. makeRequest tr config st = (Inl err, st\<lparr>dispatches := Suc (dispatches st)\<rparr>)
           \<and> isRetryable to_number err"
proof (cases "tr config (Suc (dispatches st))")
  case (Response status body)
  with assms show ?thesis by (simp add: retryable_failure_def)
next
  case (Failure msg c resp)
  with assms obtain status body where r: "resp = Some (status, body)"
    by (cases resp) (auto simp: retryable_failure_def)
  with Failure assms have b: "body \<noteq> JNull" "body \<noteq> JUndefined"
    and s: "status = 429 \<or> (500 \<le> status \<and> status \<le> 599)"
    by (auto simp: retryable_failure_def)
  from b obtain m where "data_message body = Inr m" by (cases body) auto
  with Failure r s show ?thesis
    by (auto simp: makeRequest_def client_request_def response_interceptor_def APIError_def)
qed

text \<open>
  \<^verbatim>\<open>_makeRequest\<close> on its own: a failure that carries a response with a body of which
  \<^verbatim>\<open>message\<close> can be read is thrown as an \<open>APIError\<close> with the body's message, the
  response's status as \<open>code\<close> and \<open>statusCode\<close>, and the body as \<open>data\<close> and
  \<open>responseData\<close>.
\<close>

lemma makeRequest_wraps_response:
  assumes "tr config (Suc (dispatches st)) = Failure msg c (Some (status, body))"
    and "body \<noteq> JNull" and "body \<noteq> JUndefined"
  shows "\<exists>m e. data_message body = Inr m \<and> fst (makeRequest tr config st) = Inl (ThrownAPIError e)
           \<and> message e = m \<and> code e = CodeNum status \<and> statusCode e = status
           \<and> data e = body \<and> responseData e = body"
proof -
  from assms(2,3) obtain m where "data_message body = Inr m" by (cases body) auto
  with assms(1) show ?thesis
    by (simp add: makeRequest_def client_request_def response_interceptor_def APIError_def)
qed


text \<open>
  Whenever the first dispatch fails retryably and another attempt is allowed, computing
  the delay throws, after that one dispatch and before any wait.
\<close>

lemma retryable_failure_throws_TypeError:
  assumes "2 \<le> max_attempts retries"
    and "retryable_failure (tr config (Suc (dispatches st)))"
  shows "retryRequest to_number tr config retries st =
           (Inl (ThrownTypeError ''Cannot read properties of undefined (reading INITIAL_DELAY)''),
            st\<lparr>dispatches := Suc (dispatches st)\<rparr>)"
proof -
  from makeRequest_retryable[of tr config st to_number] assms(2) obtain err where
    m: "makeRequest tr config st = (Inl err, st\<lparr>dispatches := Suc (dispatches st)\<rparr>)"
    and r: "isRetryable to_number err"
    by blast
  have "retry_loop constants to_number tr config (max_attempts retries) 1 st =
          (Inl (ThrownTypeError ''Cannot read properties of undefined (reading INITIAL_DELAY)''),
            st\<lparr>dispatches := Suc (dispatches st)\<rparr>)"
    using assms(1) m r by (subst retry_loop.simps) (simp add: retry_delay_def constants_def)
  then show ?thesis by (simp add: retryRequest_def retryRequest_with_def)
qed

text \<open>
  The same loop over a constants module that defines \<open>RETRY_CONFIG\<close>: retryable
  failures on the dispatches before the \<open>m\<close>-th and a response on the \<open>m\<close>-th give that
  response's body after \<open>m\<close> dispatches, and the waits are
  \<open>INITIAL_DELAY * BACKOFF_FACTOR ^ (k - 1)\<close> after attempt \<open>k\<close>.
\<close>

lemma retry_loop_defined:
  assumes rc: "RETRY_CONFIG C = Some rc"
    and ok: "tr config m = Response status body"
    and fails: "\<And>k. a \<le> k \<Longrightarrow> k < m \<Longrightarrow> retryable_failure (tr config k)"
    and a: "1 \<le> a" "a \<le> m" "dispatches st = a - 1"
  shows "retry_loop C to_number tr config (int m) (int a) st =
           (Inr body, st\<lparr>dispatches := m,
                         slept := slept st @ map (\<lambda>k. INITIAL_DELAY rc * BACKOFF_FACTOR rc ^ k) [a - 1 ..< m - 1]\<rparr>)"
  using fails a
proof (induction "m - a" arbitrary: a st)
  case 0
  then have am: "a = m" by simp
  have s: "Suc (dispatches st) = m" using 0 by simp
  have "makeRequest tr config st = (Inr body, st\<lparr>dispatches := m\<rparr>)"
    using ok s by (simp add: makeRequest_def client_request_def response_interceptor_def)
  then show ?case using am by (subst retry_loop.simps) simp
next
  case (Suc d)
  then have lt: "a < m" by simp
  have s: "Suc (dispatches st) = a" using Suc.prems by simp
  from Suc.prems(1)[of a] lt have "retryable_failure (tr config (Suc (dispatches st)))" using s by simp
  from makeRequest_retryable[of tr config st to_number] this obtain err where
    m: "makeRequest tr config st = (Inl err, st\<lparr>dispatches := a\<rparr>)" and r: "isRetryable to_number err"
    using s by auto
  let ?st = "st\<lparr>dispatches := a, slept := slept st @ [INITIAL_DELAY rc * BACKOFF_FACTOR rc ^ (a - 1)]\<rparr>"
  have step: "retry_loop C to_number tr config (int m) (int a) st
      = retry_loop C to_number tr config (int m) (int (Suc a)) ?st"
    using lt m r rc Suc.prems(2)
    by (subst retry_loop.simps) (simp add: retry_delay_def nat_diff_distrib' add.commute)
  have ih: "retry_loop C to_number tr config (int m) (int (Suc a)) ?st =
      (Inr body, ?st\<lparr>dispatches := m,
          slept := slept ?st @ map (\<lambda>k. INITIAL_DELAY rc * BACKOFF_FACTOR rc ^ k) [Suc a - 1 ..< m - 1]\<rparr>)"
    using Suc.hyps(2) lt Suc.prems(1) by (intro Suc.hyps(1)) auto
  have "[a - 1 ..< m - 1] = (a - 1) # [a ..< m - 1]"
    using lt Suc.prems(2) by (simp add: upt_conv_Cons)
  with step ih show ?case by simp
qed

lemma defined_RETRY_CONFIG_retries:
  assumes "RETRY_CONFIG C = Some rc"
    and "1 \<le> m"
    and "tr config m = Response status body"
    and "\<And>k. 1 \<le> k \<Longrightarrow> k < m \<Longrightarrow> retryable_failure (tr config k)"
  shows "retryRequest_with C to_number tr config (Some (int m)) exec_init =
           (Inr body,
            \<lparr>dispatches = m, slept = map (\<lambda>k. INITIAL_DELAY rc * BACKOFF_FACTOR rc ^ k) [0 ..< m - 1]\<rparr>)"
  using retry_loop_defined[of C rc tr config m status body 1 exec_init to_number] assms
  by (simp add: retryRequest_with_def max_attempts_def exec_init_def)

lemma defined_RETRY_CONFIG_example:
  "retryRequest_with (constants\<lparr>RETRY_CONFIG := Some (DEFAULT_CONFIG_RETRY constants)\<rparr>) to_number
       svc_down status_request (Some 3) exec_init =
     (Inr (JObj [(''message'', JStr ''OK'')]), \<lparr>dispatches = 3, slept = [1000, 2000]\<rparr>)"
  by (simp add: retryRequest_with_def max_attempts_def makeRequest_def client_request_def
      response_interceptor_def svc_down_def exec_init_def constants_def retry_delay_def APIError_def
      lookup_def)

text \<open>
  A transport error whose code is the string \<^verbatim>\<open>'503'\<close> passes \<^verbatim>\<open>_isRetryable\<close>, and
  the request ends after its one dispatch with the \<^verbatim>\<open>TypeError\<close>.
\<close>

lemma odd_code_example:
  "isRetryable decimal_to_number (ThrownAxiosError ''socket hang up'' (CodeStr ''503'') None)
   \<and> getStatus decimal_to_number odd_code exec_init =
       (Inl (ThrownTypeError ''Cannot read properties of undefined (reading INITIAL_DELAY)''),
        \<lparr>dispatches = 1, slept = []\<rparr>)"
  by (simp add: getStatus_def retryRequest_def retryRequest_with_def max_attempts_def makeRequest_def
      client_request_def response_interceptor_def odd_code_def exec_init_def constants_def
      retry_delay_def decimal_to_number_def)

text \<open>
  C1. A request whose dispatches fail with 429 or 5xx before the last allowed attempt
  and succeed on it should return the response's data after exactly that many
  dispatches. The executor does not: with three attempts allowed and a server that
  answers 503, 503, 200, computing the first delay reads a property of the undefined
  \<^verbatim>\<open>constants.RETRY_CONFIG\<close>, and the request ends with that \<^verbatim>\<open>TypeError\<close> after one
  dispatch.
\<close>

theorem C1_retry_ends_after_first_retryable_failure:
  "retryRequest to_number svc_down status_request (Some 3) exec_init =
     (Inl (ThrownTypeError ''Cannot read properties of undefined (reading INITIAL_DELAY)''),
      \<lparr>dispatches = 1, slept = []\<rparr>)"
  by (simp add: retryRequest_def retryRequest_with_def max_attempts_def makeRequest_def
      client_request_def response_interceptor_def svc_down_def exec_init_def constants_def
      retry_delay_def APIError_def lookup_def)

text \<open>
  C2. The wait before attempt \<open>k + 1\<close> should be the initial delay times the backoff
  factor to the power \<open>k - 1\<close>: 1000, 2000, 4000, ... with the defaults. The executor
  never waits: the delay cannot be computed after any attempt, and the request that is
  answered 503, 503, 200 ends without a single wait.
\<close>

theorem C2_no_delay_is_ever_computed:
  "retry_delay constants attempt =
     Inl (ThrownTypeError ''Cannot read properties of undefined (reading INITIAL_DELAY)'')
   \<and> slept (snd (retryRequest to_number svc_down status_request (Some 3) exec_init)) = []"
  by (simp add: retryRequest_def retryRequest_with_def max_attempts_def makeRequest_def
      client_request_def response_interceptor_def svc_down_def exec_init_def constants_def
      retry_delay_def APIError_def lookup_def)



text \<open>
  C9. The error a caller gets for a failed request that carried a response should be
  an \<open>APIError\<close> with the response's status and body. \<^verbatim>\<open>_makeRequest\<close> throws that
  error for the 503 answer, but \<^verbatim>\<open>getStatus()\<close>, like every public operation, calls it
  through the executor, and what the caller gets is the \<^verbatim>\<open>TypeError\<close> of the delay
  computation, which has no code.
\<close>

theorem C9_caller_gets_TypeError_for_503:
  "fst (makeRequest svc_down status_request exec_init) =
     Inl (ThrownAPIError (APIError (JStr ''Service Unavailable'') 503
            (JObj [(''message'', JStr ''Service Unavailable'')])))
   \<and> fst (getStatus to_number svc_down exec_init) =
       Inl (ThrownTypeError ''Cannot read properties of undefined (reading INITIAL_DELAY)'')
   \<and> error_code (ThrownTypeError ''Cannot read properties of undefined (reading INITIAL_DELAY)'')
       = CodeUndefined"
  by (simp add: getStatus_def retryRequest_def retryRequest_with_def max_attempts_def makeRequest_def
      client_request_def response_interceptor_def svc_down_def exec_init_def constants_def
      retry_delay_def APIError_def lookup_def)

section \<open>The socket client\<close>

subsection \<open>What every run preserves\<close>

lemma tracked_cong:
  "pingInterval_handle s' = pingInterval_handle s \<Longrightarrow> pongTimeout_handle s' = pongTimeout_handle s \<Longrightarrow>
   reconnectTimer s' = reconnectTimer s \<Longrightarrow> options s' = options s \<Longrightarrow> tracked s' = tracked s"
  by (rule ext) (simp add: tracked_def split: timer_callback.splits)

lemma pbt_filter: "pong_before_tick ts \<Longrightarrow> pong_before_tick (filter P ts)"
  by (auto simp: pong_before_tick_def list_all_iff)

lemma tracked_handle:
  "tracked s x \<Longrightarrow> Some (handle x) = pingInterval_handle s \<or> Some (handle x) = pongTimeout_handle s
     \<or> Some (handle x) = reconnectTimer s"
  by (cases "callback x") (auto simp: tracked_def)

lemma all_tracked_filtered:
  assumes "list_all (tracked s) (timers s)"
  shows "filter (\<lambda>x. Some (handle x) \<noteq> reconnectTimer s)
           (filter (\<lambda>x. Some (handle x) \<noteq> pongTimeout_handle s)
              (filter (\<lambda>x. Some (handle x) \<noteq> pingInterval_handle s) (timers s))) = []"
  using assms tracked_handle[of s]
  by (auto simp: filter_empty_conv list_all_iff)

lemma timers_clearTimeout:
  "timers (clearTimeout_js h s) = filter (\<lambda>x. Some (handle x) \<noteq> h) (timers s)"
  by (cases h) (auto simp: clearTimeout_js_def)

lemma clearTimeout_fields [simp]:
  "options (clearTimeout_js h s) = options s"
  "pingInterval_handle (clearTimeout_js h s) = pingInterval_handle s"
  "pongTimeout_handle (clearTimeout_js h s) = pongTimeout_handle s"
  "reconnectTimer (clearTimeout_js h s) = reconnectTimer s"
  "ws (clearTimeout_js h s) = ws s"
  "isConnected (clearTimeout_js h s) = isConnected s"
  "reconnectAttempts (clearTimeout_js h s) = reconnectAttempts s"
  "emitted (clearTimeout_js h s) = emitted s"
  "commands (clearTimeout_js h s) = commands s"
  "now (clearTimeout_js h s) = now s"
  "next_handle (clearTimeout_js h s) = next_handle s"
  "lastPing (clearTimeout_js h s) = lastPing s"
  "apiKey (clearTimeout_js h s) = apiKey s"
  by (cases h; simp add: clearTimeout_js_def)+

lemma close_timers_empty:
  assumes "list_all (tracked s) (timers s)"
  shows "timers (close s) = []"
  using all_tracked_filtered[OF assms]
  by (simp add: close_def Let_def timers_clearTimeout send_def split: option.splits)

lemma close_fields [simp]:
  "options (close s) = options s"
  "pingInterval_handle (close s) = pingInterval_handle s"
  "pongTimeout_handle (close s) = pongTimeout_handle s"
  "reconnectTimer (close s) = reconnectTimer s"
  "ws (close s) = None"
  "isConnected (close s) = False"
  "reconnectAttempts (close s) = reconnectAttempts s"
  "emitted (close s) = emitted s"
  "now (close s) = now s"
  "next_handle (close s) = next_handle s"
  "lastPing (close s) = lastPing s"
  "apiKey (close s) = apiKey s"
  by (simp_all add: close_def Let_def send_def split: option.splits)

lemma inv_close: "timers_inv s \<Longrightarrow> timers_inv (close s)"
  by (simp add: timers_inv_def close_timers_empty pong_before_tick_def outstanding_def)

lemma inv_connect:
  assumes "timers_inv s"
  shows "timers_inv (connect s)"
proof -
  define s1 where "s1 = (if ws s \<noteq> None then close s else s)"
  have t1: "timers s1 = []"
    using assms by (auto simp: s1_def timers_inv_def close_timers_empty)
  have o1: "options s1 = options s"
    by (simp add: s1_def)
  have "connect s = startPingPong ((send (Cmd_open (endpoint (options s1)) (apiKey s1)) s1)\<lparr>ws := Some CONNECTING\<rparr>)"
    by (simp add: connect_def s1_def Let_def)
  then show ?thesis
    using assms t1 o1
    by (simp add: timers_inv_def startPingPong_def setInterval_js_def send_def tracked_def
        pong_before_tick_def outstanding_def)
qed

lemma handleDisconnect_fields [simp]:
  "options (handleDisconnect c r s) = options s"
  "ws (handleDisconnect c r s) = ws s"
  "isConnected (handleDisconnect c r s) = False"
  "pingInterval_handle (handleDisconnect c r s) = pingInterval_handle s"
  "pongTimeout_handle (handleDisconnect c r s) = pongTimeout_handle s"
  by (simp_all add: handleDisconnect_def Let_def emit_def setTimeout_js_def)

lemma timers_handleDisconnect:
  assumes "list_all (tracked s) (timers s)"
  shows "timers (handleDisconnect c r s) =
           (if reconnectAttempts s < maxReconnectAttempts (options s)
            then [\<lparr>handle = next_handle s,
                   due = now s + reconnectDelay (options s) * 2 ^ reconnectAttempts s,
                   callback = ReconnectNow, period = None\<rparr>]
            else [])"
    and "reconnectAttempts s < maxReconnectAttempts (options s) \<Longrightarrow>
           reconnectTimer (handleDisconnect c r s) = Some (next_handle s)"
  using all_tracked_filtered[OF assms]
  by (auto simp: handleDisconnect_def Let_def emit_def setTimeout_js_def timers_clearTimeout)

lemma inv_handleDisconnect:
  assumes "timers_inv s" and "ws s \<noteq> None"
  shows "timers_inv (handleDisconnect c r s)"
proof -
  from assms have tr: "list_all (tracked s) (timers s)" by (simp add: timers_inv_def)
  show ?thesis
    using assms timers_handleDisconnect[OF tr, of c r]
    by (auto simp: timers_inv_def tracked_def pong_before_tick_def outstanding_def)
qed

lemma length_filter_filter_le:
  "length (filter P (filter Q xs)) \<le> length (filter P xs)"
  by (induction xs) auto

lemma inv_clearTimeout:
  assumes "timers_inv s"
  shows "timers_inv (clearTimeout_js h s)"
proof -
  have "outstanding (clearTimeout_js h s) \<le> outstanding s"
    unfolding outstanding_def timers_clearTimeout
    using length_filter_filter_le[of "\<lambda>x. callback x = PongExpired" "\<lambda>x. Some (handle x) \<noteq> h" "timers s"]
    by simp
  with assms show ?thesis
    by (auto simp: timers_inv_def timers_clearTimeout pbt_filter list_all_iff
          tracked_cong[of "clearTimeout_js h s" s])
qed

lemma inv_fields_only:
  assumes "timers_inv s"
    and "timers s' = timers s" "options s' = options s" "ws s' = ws s"
    and "pingInterval_handle s' = pingInterval_handle s" "pongTimeout_handle s' = pongTimeout_handle s"
    and "reconnectTimer s' = reconnectTimer s"
  shows "timers_inv s'"
  using assms by (simp add: timers_inv_def outstanding_def tracked_cong[of s' s])

lemma inv_now:
  assumes "timers_inv s"
  shows "timers_inv (s\<lparr>now := t\<rparr>)"
  by (rule inv_fields_only[OF assms]) simp_all

lemma inv_ws_some:
  assumes "timers_inv s"
  shows "timers_inv (s\<lparr>ws := Some rs\<rparr>)"
  using assms by (simp add: timers_inv_def outstanding_def tracked_cong[of "s\<lparr>ws := Some rs\<rparr>" s])

lemma inv_on_open: "timers_inv s \<Longrightarrow> timers_inv (on_open s)"
  by (erule inv_fields_only) (simp_all add: on_open_def emit_def)

lemma inv_on_error: "timers_inv s \<Longrightarrow> timers_inv (on_error msg s)"
  by (erule inv_fields_only) (simp_all add: on_error_def emit_def)

lemma inv_emit: "timers_inv s \<Longrightarrow> timers_inv (emit e s)"
  by (erule inv_fields_only) (simp_all add: emit_def)

lemma inv_on_message: "timers_inv s \<Longrightarrow> timers_inv (on_message frame s)"
  by (auto simp: on_message_def inv_emit split: sum.splits js_value.splits)

lemma inv_on_pong: "timers_inv s \<Longrightarrow> timers_inv (on_pong s)"
  by (simp add: on_pong_def Let_def inv_emit inv_clearTimeout)

lemma inv_deliver:
  assumes "timers_inv s" and "ws s \<noteq> None"
  shows "timers_inv (deliver inp (s\<lparr>now := t\<rparr>))"
proof (cases inp)
  case WsOpen
  then show ?thesis using assms(1) by (simp add: inv_on_open inv_ws_some inv_now)
next
  case (WsMessage frame)
  then show ?thesis using assms(1) by (simp add: inv_on_message inv_now)
next
  case WsPong
  then show ?thesis using assms(1) by (simp add: inv_on_pong inv_now)
next
  case (WsClose c r)
  have "timers_inv (s\<lparr>now := t, ws := Some CLOSED\<rparr>)"
    using assms(1) by (simp add: inv_ws_some inv_now)
  then have "timers_inv (handleDisconnect c r (s\<lparr>now := t, ws := Some CLOSED\<rparr>))"
    by (rule inv_handleDisconnect) simp
  with WsClose show ?thesis by (simp add: on_close_def)
next
  case (WsError msg)
  then show ?thesis using assms(1) by (simp add: inv_on_error inv_now)
qed

lemma tick_facts:
  assumes inv: "timers_inv s" and x: "x \<in> set (timers s)" and cb: "callback x = PingTick"
    and mn: "list_all (\<lambda>y. due x \<le> due y) (timers s)"
  shows "\<forall>y \<in> set (timers s). callback y \<noteq> PongExpired"
    and "\<forall>y \<in> set (timers s). handle y \<noteq> handle x \<longrightarrow> callback y = ReconnectNow"
proof -
  show "\<forall>y \<in> set (timers s). callback y \<noteq> PongExpired"
  proof
    fix y assume y: "y \<in> set (timers s)"
    show "callback y \<noteq> PongExpired"
    proof
      assume "callback y = PongExpired"
      with inv x cb y have "due y < due x"
        by (auto simp: timers_inv_def pong_before_tick_def list_all_iff)
      moreover from mn y have "due x \<le> due y" by (simp add: list_all_iff)
      ultimately show False by simp
    qed
  qed
  then have np: "\<forall>y \<in> set (timers s). callback y \<noteq> PongExpired" .
  show "\<forall>y \<in> set (timers s). handle y \<noteq> handle x \<longrightarrow> callback y = ReconnectNow"
  proof (intro ballI impI)
    fix y assume y: "y \<in> set (timers s)" and ne: "handle y \<noteq> handle x"
    from inv x y have tx: "tracked s x" and ty: "tracked s y"
      by (auto simp: timers_inv_def list_all_iff)
    show "callback y = ReconnectNow"
    proof (cases "callback y")
      case PingTick
      with tx ty cb ne show ?thesis by (simp add: tracked_def)
    next
      case PongExpired
      with np y show ?thesis by simp
    next
      case ReconnectNow
      then show ?thesis .
    qed
  qed
qed

lemma inv_fire_tick:
  assumes inv: "timers_inv s" and x: "x \<in> set (timers s)" and cb: "callback x = PingTick"
    and mn: "list_all (\<lambda>y. due x \<le> due y) (timers s)"
  shows "timers_inv (fire x s)" and "outstanding s = 0"
    and "outstanding (fire x s) = (if isConnected s then 1 else 0)"
proof -
  note tf = tick_facts[OF assms]
  from inv x cb have px: "period x = Some (pingInterval (options s))"
    and hx: "pingInterval_handle s = Some (handle x)"
    by (auto simp: timers_inv_def list_all_iff tracked_def)
  from inv have lt: "pongTimeout (options s) < pingInterval (options s)" by (simp add: timers_inv_def)
  from inv x have wsn: "ws s \<noteq> None" by (auto simp: timers_inv_def)
  let ?rest = "filter (\<lambda>y. handle y \<noteq> handle x) (timers s)"
  have rest: "\<forall>y \<in> set ?rest. callback y = ReconnectNow" using tf(2) by simp
  have rtr: "\<forall>y \<in> set ?rest. reconnectTimer s = Some (handle y) \<and> period y = None"
    using rest inv by (auto simp: timers_inv_def list_all_iff tracked_def)
  show "outstanding s = 0"
    using tf(1) by (simp add: outstanding_def filter_empty_conv)
  have norest: "filter (\<lambda>y. callback y = PongExpired) ?rest = []"
    using rest by (auto simp: filter_empty_conv)
  show "timers_inv (fire x s)"
    using px hx lt wsn rest rtr norest cb
    by (auto simp: fire_def Let_def ping_tick_def setTimeout_js_def send_def timers_inv_def
          list_all_iff tracked_def pong_before_tick_def outstanding_def)
  show "outstanding (fire x s) = (if isConnected s then 1 else 0)"
    using px cb norest
    by (auto simp: fire_def Let_def ping_tick_def setTimeout_js_def send_def outstanding_def)
qed

lemma inv_remove_fired:
  assumes inv: "timers_inv s" and x: "x \<in> set (timers s)"
  shows "timers_inv (s\<lparr>now := t, timers := filter (\<lambda>y. handle y \<noteq> handle x) (timers s)\<rparr>)"
    (is "timers_inv ?s1")
proof -
  have "outstanding ?s1 \<le> outstanding s"
    using length_filter_filter_le[of "\<lambda>x. callback x = PongExpired" "\<lambda>y. handle y \<noteq> handle x" "timers s"]
    by (simp add: outstanding_def)
  moreover from inv x have "ws s \<noteq> None" by (auto simp: timers_inv_def)
  ultimately show ?thesis using inv
    by (auto simp: timers_inv_def pbt_filter list_all_iff tracked_cong[of ?s1 s])
qed

lemma inv_fire:
  assumes inv: "timers_inv s" and x: "x \<in> set (timers s)"
    and mn: "list_all (\<lambda>y. due x \<le> due y) (timers s)"
  shows "timers_inv (fire x s)"
proof (cases "callback x")
  case PingTick
  then show ?thesis using inv_fire_tick(1)[OF inv x _ mn] by simp
next
  case PongExpired
  with inv x have p: "period x = None" by (auto simp: timers_inv_def list_all_iff tracked_def)
  let ?s1 = "s\<lparr>now := due x, timers := filter (\<lambda>y. handle y \<noteq> handle x) (timers s)\<rparr>"
  from inv x have "ws ?s1 \<noteq> None" by (auto simp: timers_inv_def)
  with inv_remove_fired[OF inv x, of "due x"] have "timers_inv (handleDisconnect 1001 ''Pong timeout'' ?s1)"
    by (rule inv_handleDisconnect)
  with PongExpired p show ?thesis by (simp add: fire_def Let_def)
next
  case ReconnectNow
  with inv x have p: "period x = None" by (auto simp: timers_inv_def list_all_iff tracked_def)
  let ?s1 = "s\<lparr>now := due x, timers := filter (\<lambda>y. handle y \<noteq> handle x) (timers s)\<rparr>"
  from inv_remove_fired[OF inv x, of "due x"] have "timers_inv (connect ?s1)"
    by (rule inv_connect)
  with ReconnectNow p show ?thesis by (simp add: fire_def Let_def)
qed

lemma find_handle_in:
  "find (\<lambda>x. handle x = h) ts = Some x \<Longrightarrow> x \<in> set ts \<and> handle x = h"
  by (auto simp: find_Some_iff)

lemma inv_step:
  assumes "timers_inv s" and "step s e = Some s'"
  shows "timers_inv s'"
proof (cases e)
  case (Fire h)
  with assms(2) obtain x where f: "find (\<lambda>x. handle x = h) (timers s) = Some x"
    and mn: "list_all (\<lambda>y. due x \<le> due y) (timers s)" and s': "s' = fire x s"
    by (auto simp: step_def split: option.splits if_splits)
  from find_handle_in[OF f] have "x \<in> set (timers s)" by simp
  with assms(1) mn s' show ?thesis by (simp add: inv_fire)
next
  case (Transport t inp)
  show ?thesis
  proof (cases "ws s")
    case None
    with Transport assms(2) have "s' = s\<lparr>now := t\<rparr>"
      by (auto simp: step_def split: if_splits)
    with assms(1) show ?thesis by (simp add: inv_now)
  next
    case (Some rs)
    with Transport assms(2) have "s' = deliver inp (s\<lparr>now := t\<rparr>)"
      by (auto simp: step_def split: if_splits)
    with assms(1) Some show ?thesis by (simp add: inv_deliver)
  qed
next
  case (CallConnect t)
  with assms(2) have "s' = connect (s\<lparr>now := t\<rparr>)"
    by (auto simp: step_def split: if_splits)
  with assms(1) show ?thesis by (simp add: inv_connect inv_now)
next
  case (CallClose t)
  with assms(2) have "s' = close (s\<lparr>now := t\<rparr>)"
    by (auto simp: step_def split: if_splits)
  with assms(1) show ?thesis by (simp add: inv_close inv_now)
qed

lemma inv_run:
  "timers_inv s \<Longrightarrow> run s evs = Some s' \<Longrightarrow> timers_inv s'"
proof (induction evs arbitrary: s)
  case Nil
  then show ?case by simp
next
  case (Cons e evs)
  then show ?case by (auto split: option.splits dest: inv_step)
qed

lemma inv_init:
  "pongTimeout (options (NOWPaymentsWebSocket key arg)) < pingInterval (options (NOWPaymentsWebSocket key arg))
   \<Longrightarrow> timers_inv (NOWPaymentsWebSocket key arg)"
  by (simp add: timers_inv_def NOWPaymentsWebSocket_def pong_before_tick_def outstanding_def)

subsection \<open>Normal forms of \<^verbatim>\<open>close()\<close> and \<^verbatim>\<open>_handleDisconnect\<close>\<close>

lemma step_CallClose:
  "step s (CallClose t) = Some s1 \<Longrightarrow> s1 = close (s\<lparr>now := t\<rparr>) \<and> now s \<le> t"
  by (auto simp: step_def may_happen_at_def split: if_splits)

lemma clearTimeout_nf:
  "clearTimeout_js h s = s\<lparr>timers := filter (\<lambda>x. Some (handle x) \<noteq> h) (timers s)\<rparr>"
  by (cases h) (simp_all add: clearTimeout_js_def)

lemma close_nf:
  "close s =
     s\<lparr>timers := filter (\<lambda>x. Some (handle x) \<noteq> reconnectTimer s)
                   (filter (\<lambda>x. Some (handle x) \<noteq> pongTimeout_handle s)
                      (filter (\<lambda>x. Some (handle x) \<noteq> pingInterval_handle s) (timers s))),
       commands := commands s @
          (case ws s of None \<Rightarrow> []
           | Some rs \<Rightarrow> Cmd_removeAllListeners #
               (if rs = OPEN \<or> rs = CONNECTING then [Cmd_close 1000 ''Client closed connection''] else [])),
       ws := None, isConnected := False\<rparr>"
  by (cases "ws s") (simp_all add: close_def Let_def clearTimeout_nf send_def)

lemma close_idem: "close (close s) = close s"
  by (subst (1) close_nf) (simp add: close_nf cong: conj_cong)







subsection \<open>The armed timers and the attempt counter\<close>
























subsection \<open>Runs\<close>

lemma run_snoc:
  "run c (evs @ [e]) = (case run c evs of None \<Rightarrow> None | Some s \<Rightarrow> step s e)"
  by (induction evs arbitrary: c) (auto split: option.splits)

lemma step_state_after:
  assumes "run c (evs @ [e]) \<noteq> None"
  shows "step (state_after c evs) e = Some (state_after c (evs @ [e]))"
    and "run c evs = Some (state_after c evs)"
  using assms by (auto simp: run_snoc state_after_def split: option.splits)

lemmas ws_defs = default_client_def NOWPaymentsWebSocket_def no_options_def or_default_def or_default_str_def
  constants_def step_def may_happen_at_def connect_def close_def startPingPong_def setInterval_js_def
  setTimeout_js_def clearTimeout_js_def send_def emit_def on_open_def on_close_def handleDisconnect_def
  fire_def ping_tick_def on_pong_def Let_def

lemma default_timeout_shorter:
  "pongTimeout (options default_client) < pingInterval (options default_client)"
  by (simp add: default_client_def NOWPaymentsWebSocket_def no_options_def or_default_def)

lemma run_session_open:
  "run default_client session_open = Some (state_after default_client session_open)"
  by (simp add: state_after_def session_open_def ws_defs)

lemma obs_session_open:
  "timers (state_after default_client session_open) =
     [\<lparr>handle = 0, due = 30000, callback = PingTick, period = Some 30000\<rparr>]"
  "isConnected (state_after default_client session_open)"
  by (simp_all add: state_after_def session_open_def ws_defs)

lemma run_one_tick:
  "run default_client one_tick = Some (state_after default_client one_tick)"
  by (simp add: state_after_def one_tick_def ws_defs)

lemma step_one_tick:
  "step (state_after default_client session_open) (Fire 0) = Some (state_after default_client one_tick)"
  by (simp add: state_after_def session_open_def one_tick_def ws_defs)

lemma obs_one_tick:
  "timers (state_after default_client one_tick) =
     [\<lparr>handle = 0, due = 60000, callback = PingTick, period = Some 30000\<rparr>,
      \<lparr>handle = 1, due = 35000, callback = PongExpired, period = None\<rparr>]"
  "pongTimeout_handle (state_after default_client one_tick) = Some 1"
  "now (state_after default_client one_tick) = 30000"
  "ws (state_after default_client one_tick) = Some OPEN"
  "emitted (state_after default_client one_tick) = [Ev_connected]"
  by (simp_all add: state_after_def one_tick_def ws_defs)

lemma step_closed_once:
  "step (state_after default_client one_tick) (CallClose 31000) = Some (state_after default_client closed_once)"
  by (simp add: state_after_def one_tick_def closed_once_def ws_defs)

lemma step_closed_twice:
  "step (state_after default_client closed_once) (CallClose 32000) = Some (state_after default_client closed_twice)"
  by (simp add: state_after_def closed_twice_def closed_once_def ws_defs)


lemma obs_six_closes:
  "map_option observe (run default_client exhausted) =
     Some (5, [],
           [Ev_connected, Ev_disconnected [], Ev_reconnecting 1, Ev_disconnected [], Ev_reconnecting 2,
            Ev_disconnected [], Ev_reconnecting 3, Ev_disconnected [], Ev_reconnecting 4,
            Ev_disconnected [], Ev_reconnecting 5, Ev_disconnected [],
            Ev_error ''MaxReconnectError'' ''Maximum reconnection attempts reached''])"
  by (simp add: exhausted_def observe_def session_lost_def four_failed_reconnects_def
      fifth_failed_reconnect_def ws_defs)

lemma obs_reopened:
  "map_option reconnectAttempts
     (run default_client ((exhausted @ [CallConnect 40000]) @ [Transport 40100 WsOpen])) = Some 0"
  by (simp add: exhausted_def session_lost_def four_failed_reconnects_def
      fifth_failed_reconnect_def ws_defs)




text \<open>
  A pong timeout that \<^verbatim>\<open>this.pongTimeout\<close> holds no more survives the disconnect
  handling and is handled as one more disconnect when it expires: with a ping interval
  of 1000, two pings without a pong and reconnections that never succeed, the terminal
  error comes with the fifth close the sockets report, the sixth disconnect handled.
\<close>

lemma leaked_timeout_uses_an_attempt:
  "map_option observe (run (NOWPaymentsWebSocket ''key'' overlapping) (two_ticks @ leaked_with_five_closes)) =
     Some (5, [],
       [Ev_connected, Ev_disconnected [], Ev_reconnecting 1, Ev_disconnected [], Ev_reconnecting 2,
        Ev_disconnected ''Pong timeout'', Ev_reconnecting 3, Ev_disconnected [], Ev_reconnecting 4,
        Ev_disconnected [], Ev_reconnecting 5, Ev_disconnected [],
        Ev_error ''MaxReconnectError'' ''Maximum reconnection attempts reached''])"
  "disconnect_count (state_after (NOWPaymentsWebSocket ''key'' overlapping) two_ticks) leaked_with_five_closes = 6"
  by (simp_all add: state_after_def overlapping_def two_ticks_def leaked_with_five_closes_def observe_def
      handles_disconnect_def ws_defs)

subsection \<open>The claims about the socket client\<close>

text \<open>
  C4, as the code has it. \<^verbatim>\<open>connect()\<close> opens a new socket and leaves
  \<open>reconnectAttempts\<close> as it is; the counter is set to 0 when that socket reports
  open, and from then on the session has its whole budget of reconnection attempts
  again.
\<close>

theorem C4_connect_keeps_counter_until_open:
  assumes "step s (CallConnect t) = Some s1"
  shows "reconnectAttempts s1 = reconnectAttempts s
         \<and> ws s1 = Some CONNECTING
         \<and> (step s1 (Transport t2 WsOpen) = Some s2 \<longrightarrow> reconnectAttempts s2 = 0 \<and> isConnected s2)"
proof -
  from assms have s1: "s1 = connect (s\<lparr>now := t\<rparr>)"
    by (auto simp: step_def split: if_splits)
  have a: "reconnectAttempts s1 = reconnectAttempts s" and b: "ws s1 = Some CONNECTING"
    unfolding s1 by (simp_all add: connect_def Let_def startPingPong_def setInterval_js_def send_def)
  have c: "reconnectAttempts s2 = 0 \<and> isConnected s2" if "step s1 (Transport t2 WsOpen) = Some s2"
  proof -
    from that b have "s2 = deliver WsOpen (s1\<lparr>now := t2\<rparr>)"
      by (auto simp: step_def split: if_splits)
    then show ?thesis by (simp add: on_open_def emit_def)
  qed
  from a b c show ?thesis by blast
qed

theorem C4_connect_keeps_counter_until_open_witness:
  "step (state_after default_client exhausted) (CallConnect 40000)
     = Some (state_after default_client (exhausted @ [CallConnect 40000]))
   \<and> reconnectAttempts (state_after default_client exhausted) = 5
   \<and> reconnectAttempts (state_after default_client (exhausted @ [CallConnect 40000])) = 5
   \<and> ws (state_after default_client (exhausted @ [CallConnect 40000])) = Some CONNECTING
   \<and> step (state_after default_client (exhausted @ [CallConnect 40000])) (Transport 40100 WsOpen)
       = Some (state_after default_client ((exhausted @ [CallConnect 40000]) @ [Transport 40100 WsOpen]))
   \<and> reconnectAttempts
         (state_after default_client ((exhausted @ [CallConnect 40000]) @ [Transport 40100 WsOpen])) = 0
   \<and> isConnected
         (state_after default_client ((exhausted @ [CallConnect 40000]) @ [Transport 40100 WsOpen]))"
proof -
  have r2: "run default_client ((exhausted @ [CallConnect 40000]) @ [Transport 40100 WsOpen]) \<noteq> None"
    using obs_reopened by auto
  note st2 = step_state_after[OF r2]
  from st2(2) have r1: "run default_client (exhausted @ [CallConnect 40000]) \<noteq> None" by simp
  note st1 = step_state_after[OF r1]
  from st1(2) obs_six_closes have five: "reconnectAttempts (state_after default_client exhausted) = 5"
    by (simp add: observe_def)
  note h = C4_connect_keeps_counter_until_open[OF st1(1), of 40100
      "state_after default_client ((exhausted @ [CallConnect 40000]) @ [Transport 40100 WsOpen])"]
  from h st2(1) have c: "reconnectAttempts
         (state_after default_client ((exhausted @ [CallConnect 40000]) @ [Transport 40100 WsOpen])) = 0
     \<and> isConnected
         (state_after default_client ((exhausted @ [CallConnect 40000]) @ [Transport 40100 WsOpen]))"
    by blast
  from h five have k: "reconnectAttempts (state_after default_client (exhausted @ [CallConnect 40000])) = 5"
    by simp
  from st1(1) five k h st2(1) c show ?thesis by blast
qed

text \<open>
  C4, as it is stated, fails: after the six closes that exhaust the default client,
  \<^verbatim>\<open>connect()\<close> leaves \<open>reconnectAttempts\<close> at 5, and when the new socket closes
  without opening the terminal error is emitted a second time and no reconnection is
  scheduled.
\<close>

theorem C4_counterexample:
  "map_option reconnectAttempts (run default_client (exhausted @ [CallConnect 40000])) = Some 5
   \<and> map_option observe (run default_client (exhausted @ [CallConnect 40000, Transport 40100 (WsClose 1006 [])]))
       = Some (5, [],
           [Ev_connected, Ev_disconnected [], Ev_reconnecting 1, Ev_disconnected [], Ev_reconnecting 2,
            Ev_disconnected [], Ev_reconnecting 3, Ev_disconnected [], Ev_reconnecting 4,
            Ev_disconnected [], Ev_reconnecting 5, Ev_disconnected [],
            Ev_error ''MaxReconnectError'' ''Maximum reconnection attempts reached'',
            Ev_disconnected [],
            Ev_error ''MaxReconnectError'' ''Maximum reconnection attempts reached''])"
  by (simp add: exhausted_def observe_def session_lost_def four_failed_reconnects_def
      fifth_failed_reconnect_def ws_defs)

text \<open>
  C5, as the code has it. For a client whose pong timeout is shorter than its ping
  interval (the defaults are 5000 and 30000), in every state a run reaches at most one
  probe is outstanding, and whenever the ping interval fires no probe is outstanding:
  the earlier one was acknowledged or has expired. The tick itself looks only at
  \<open>isConnected\<close>.
\<close>

theorem C5_one_probe_when_timeout_shorter:
  assumes "pongTimeout (options (NOWPaymentsWebSocket key arg)) < pingInterval (options (NOWPaymentsWebSocket key arg))"
    and "run (NOWPaymentsWebSocket key arg) evs = Some s"
  shows "outstanding s \<le> 1 \<and>
         (find (\<lambda>x. handle x = h) (timers s) = Some x \<and> callback x = PingTick \<and> step s (Fire h) = Some s'
            \<longrightarrow> outstanding s = 0 \<and> outstanding s' = (if isConnected s then 1 else 0))"
proof -
  from inv_run[OF inv_init[OF assms(1)] assms(2)] have inv: "timers_inv s" .
  then have a: "outstanding s \<le> 1" by (simp add: timers_inv_def)
  have b: "outstanding s = 0 \<and> outstanding s' = (if isConnected s then 1 else 0)"
    if f: "find (\<lambda>x. handle x = h) (timers s) = Some x" and cb: "callback x = PingTick"
      and st: "step s (Fire h) = Some s'"
  proof -
    from find_handle_in[OF f] have x: "x \<in> set (timers s)" by simp
    from st f have mn: "list_all (\<lambda>y. due x \<le> due y) (timers s)" and s': "s' = fire x s"
      by (auto simp: step_def split: if_splits)
    from inv_fire_tick(2,3)[OF inv x cb mn] s' show ?thesis by simp
  qed
  from a b show ?thesis by blast
qed

theorem C5_one_probe_when_timeout_shorter_witness:
  "pongTimeout (options default_client) < pingInterval (options default_client)
   \<and> run default_client session_open = Some (state_after default_client session_open)
   \<and> find (\<lambda>x. handle x = 0) (timers (state_after default_client session_open))
       = Some \<lparr>handle = 0, due = 30000, callback = PingTick, period = Some 30000\<rparr>
   \<and> step (state_after default_client session_open) (Fire 0) = Some (state_after default_client one_tick)
   \<and> isConnected (state_after default_client session_open)
   \<and> outstanding (state_after default_client session_open) = 0
   \<and> outstanding (state_after default_client one_tick) = 1"
proof -
  note h = C5_one_probe_when_timeout_shorter[of "''key''" no_options session_open
      "state_after default_client session_open" 0
      "\<lparr>handle = 0, due = 30000, callback = PingTick, period = Some 30000\<rparr>"
      "state_after default_client one_tick", folded default_client_def,
      OF default_timeout_shorter run_session_open]
  have f: "find (\<lambda>x. handle x = 0) (timers (state_after default_client session_open))
       = Some \<lparr>handle = 0, due = 30000, callback = PingTick, period = Some 30000\<rparr>"
    using obs_session_open(1) by simp
  have cb: "callback \<lparr>handle = 0, due = 30000, callback = PingTick, period = Some 30000\<rparr> = PingTick"
    by simp
  from h f cb step_one_tick
  have "outstanding (state_after default_client session_open) = 0
      \<and> outstanding (state_after default_client one_tick)
          = (if isConnected (state_after default_client session_open) then 1 else 0)"
    by blast
  with obs_session_open(2)
  have c: "outstanding (state_after default_client session_open) = 0
      \<and> outstanding (state_after default_client one_tick) = 1"
    by simp
  from default_timeout_shorter run_session_open f step_one_tick obs_session_open(2) c
  show ?thesis by blast
qed

text \<open>
  C5, as it is stated, fails: with a ping interval of 1000 and the pong timeout of
  5000, the second tick sends a second ping while the first is still awaiting its
  pong, and two probes are outstanding.
\<close>

theorem C5_counterexample:
  "map_option outstanding (run (NOWPaymentsWebSocket ''key'' overlapping) two_ticks) = Some 2
   \<and> map_option commands (run (NOWPaymentsWebSocket ''key'' overlapping) two_ticks)
       = Some [Cmd_open ''wss://api.nowpayments.io/ws'' ''key'', Cmd_ping, Cmd_ping]"
  by (simp add: overlapping_def two_ticks_def outstanding_def ws_defs)







text \<open>
  What \<^verbatim>\<open>close()\<close> achieves for a client whose pong timeout is shorter than its ping
  interval (the defaults are 5000 and 30000), in every state a run reaches: after it no
  timer is armed; a second \<^verbatim>\<open>close()\<close> changes nothing but the clock; neither call
  emits an event; no timer can fire afterwards, and whatever the socket reports
  afterwards reaches no handler.
\<close>

lemma close_twice_when_timeout_shorter:
  assumes "pongTimeout (options (NOWPaymentsWebSocket key arg)) < pingInterval (options (NOWPaymentsWebSocket key arg))"
    and "run (NOWPaymentsWebSocket key arg) evs = Some s"
    and "step s (CallClose t1) = Some s1"
    and "step s1 (CallClose t2) = Some s2"
  shows "timers s1 = [] \<and> timers s2 = []
         \<and> emitted s1 = emitted s \<and> emitted s2 = emitted s
         \<and> s2 = s1\<lparr>now := t2\<rparr>
         \<and> step s2 (Fire h) = None
         \<and> (t2 \<le> t \<longrightarrow> step s2 (Transport t inp) = Some (s2\<lparr>now := t\<rparr>))"
proof -
  from inv_run[OF inv_init[OF assms(1)] assms(2)] have inv: "timers_inv s" .
  from step_CallClose[OF assms(3)] have s1: "s1 = close (s\<lparr>now := t1\<rparr>)" by simp
  from step_CallClose[OF assms(4)] have s2: "s2 = close (s1\<lparr>now := t2\<rparr>)" by simp
  from inv_now[OF inv, of t1] have "list_all (tracked (s\<lparr>now := t1\<rparr>)) (timers (s\<lparr>now := t1\<rparr>))"
    by (simp add: timers_inv_def)
  from close_timers_empty[OF this] s1 have t1: "timers s1 = []" by simp
  have w1: "ws s1 = None" and c1: "isConnected s1 = False" using s1 by simp_all
  have e1: "emitted s1 = emitted s" using s1 by simp
  have "close (s1\<lparr>now := t2\<rparr>) = (close s1)\<lparr>now := t2\<rparr>"
    by (simp add: close_nf)
  also have "close s1 = s1" unfolding s1 by (rule close_idem)
  finally have s2': "s2 = s1\<lparr>now := t2\<rparr>" using s2 by simp
  have f: "step s2 (Fire h) = None" using s2' t1 by (simp add: step_def)
  have tr: "step s2 (Transport t inp) = Some (s2\<lparr>now := t\<rparr>)" if "t2 \<le> t"
    using that s2' t1 w1 by (simp add: step_def may_happen_at_def)
  from t1 e1 s2' f tr show ?thesis by simp
qed

lemma close_twice_when_timeout_shorter_example:
  "pongTimeout (options default_client) < pingInterval (options default_client)
   \<and> run default_client one_tick = Some (state_after default_client one_tick)
   \<and> timers (state_after default_client one_tick) \<noteq> []
   \<and> step (state_after default_client one_tick) (CallClose 31000) = Some (state_after default_client closed_once)
   \<and> step (state_after default_client closed_once) (CallClose 32000) = Some (state_after default_client closed_twice)
   \<and> timers (state_after default_client closed_once) = []
   \<and> timers (state_after default_client closed_twice) = []
   \<and> emitted (state_after default_client closed_twice) = emitted (state_after default_client one_tick)
   \<and> state_after default_client closed_twice = (state_after default_client closed_once)\<lparr>now := 32000\<rparr>
   \<and> step (state_after default_client closed_twice) (Fire 1) = None
   \<and> (32000::nat) \<le> 33000
   \<and> step (state_after default_client closed_twice) (Transport 33000 WsPong)
       = Some ((state_after default_client closed_twice)\<lparr>now := 33000\<rparr>)"
proof -
  note a = default_timeout_shorter and r = run_one_tick and s1 = step_closed_once and s2 = step_closed_twice
  note h = close_twice_when_timeout_shorter[of "''key''" no_options one_tick "state_after default_client one_tick"
      31000 "state_after default_client closed_once" 32000 "state_after default_client closed_twice"
      1 33000 WsPong, folded default_client_def, OF a r s1 s2]
  have t0: "timers (state_after default_client one_tick) \<noteq> []"
    using obs_one_tick(1) by simp
  have le: "(32000::nat) \<le> 33000" by simp
  from h le have tr: "step (state_after default_client closed_twice) (Transport 33000 WsPong)
       = Some ((state_after default_client closed_twice)\<lparr>now := 33000\<rparr>)"
    by blast
  from h have em: "emitted (state_after default_client closed_twice)
      = emitted (state_after default_client one_tick)"
    by blast
  from a r t0 s1 s2 h em le tr show ?thesis by blast
qed

text \<open>
  C8. \<^verbatim>\<open>close()\<close> should leave no timer armed and nothing that still calls back. It
  clears the timers of its three fields, and the tick overwrites \<^verbatim>\<open>this.pongTimeout\<close>
  without clearing the timeout it held: with a ping interval of 1000 and the pong
  timeout of 5000, after two ticks \<^verbatim>\<open>close()\<close> leaves the first pong timeout armed;
  when it expires, \<open>disconnected\<close> is emitted and a reconnection is scheduled, after
  the close.
\<close>

theorem C8_close_leaves_a_pong_timeout_armed:
  "map_option timers (run (NOWPaymentsWebSocket ''key'' overlapping) (two_ticks @ [CallClose 2500]))
     = Some [\<lparr>handle = 1, due = 6000, callback = PongExpired, period = None\<rparr>]
   \<and> map_option disconnected_events
         (run (NOWPaymentsWebSocket ''key'' overlapping) (two_ticks @ [CallClose 2500, Fire 1])) = Some 1
   \<and> map_option timers (run (NOWPaymentsWebSocket ''key'' overlapping) (two_ticks @ [CallClose 2500, Fire 1]))
     = Some [\<lparr>handle = 3, due = 7000, callback = ReconnectNow, period = None\<rparr>]"
  by (simp add: overlapping_def two_ticks_def disconnected_events_def ws_defs)


section \<open>Signatures\<close>

lemma wf_lookup:
  "list_all (\<lambda>kv. wf_value (snd kv)) kvs \<Longrightarrow> wf_value (lookup kvs k)"
  by (induction kvs) (auto simp: lookup_def split: option.splits)

lemma sort_keys_eq:
  fixes xs ys :: "string list"
  assumes "distinct xs" "distinct ys" "set xs = set ys"
  shows "sort xs = sort ys"
  using assms by (intro sorted_distinct_set_unique) simp_all

lemma sortObject_same_content:
  "same_content a b \<Longrightarrow> wf_value a \<Longrightarrow> wf_value b \<Longrightarrow> sortObject a = sortObject b"
proof (induction a b rule: same_content.induct)
  case (1 xs ys)
  from "1.prems" have l: "list_all2 same_content xs ys"
    and wx: "list_all wf_value xs" and wy: "list_all wf_value ys" by simp_all
  have "list_all2 (\<lambda>x y. sortObject x = sortObject y) xs ys"
    using l
  proof (rule list.rel_mono_strong)
    fix x y assume "x \<in> set xs" "y \<in> set ys" "same_content x y"
    with "1.IH" wx wy show "sortObject x = sortObject y" by (simp add: list_all_iff)
  qed
  then have "list_all2 (=) (map sortObject xs) (map sortObject ys)"
    by (simp add: list_all2_map1 list_all2_map2)
  then have "map sortObject xs = map sortObject ys"
    by (simp add: list_all2_eq)
  then show ?case by simp
next
  case (2 a b)
  from "2.prems"(1) have ks: "set (map fst a) = set (map fst b)"
    and la: "list_all (\<lambda>k. same_content (lookup a k) (lookup b k)) (map fst a)"
    by simp_all
  from la have sc: "same_content (lookup a k) (lookup b k)" if "k \<in> set (map fst a)" for k
    using that unfolding list_all_iff by blast
  from "2.prems"(2) have da: "distinct (map fst a)" and wa: "list_all (\<lambda>kv. wf_value (snd kv)) a"
    by simp_all
  from "2.prems"(3) have db: "distinct (map fst b)" and wb: "list_all (\<lambda>kv. wf_value (snd kv)) b"
    by simp_all
  have keys: "sort (map fst a) = sort (map fst b)"
    using da db ks by (rule sort_keys_eq)
  have vals: "sortObject (lookup a k) = sortObject (lookup b k)" if "k \<in> set (sort (map fst a))" for k
  proof -
    from that have k: "k \<in> set (map fst a)" by simp
    show ?thesis
      by (rule "2.IH"[OF k sc[OF k] wf_lookup[OF wa] wf_lookup[OF wb]])
  qed
  have "fold (\<lambda>key result. assign result key (sortObject (lookup a key))) (sort (map fst a)) []
      = fold (\<lambda>key result. assign result key (sortObject (lookup b key))) (sort (map fst a)) []"
    by (rule fold_cong) (simp_all add: vals)
  with keys show ?case by simp
qed auto


text \<open>
  C10. Two well-formed payloads of the same content are sorted to the same value, so
  they get the same signature under the same secret, whatever the serializer and the
  keyed hash are, and \<^verbatim>\<open>verifyIPN\<close> gives the same answer (or throws alike) for both.
\<close>

theorem C10_signature_ignores_key_order:
  assumes "wf_value a" and "wf_value b" and "same_content a b"
  shows "sortObject a = sortObject b
         \<and> generateSignature stringify hmac a secret = generateSignature stringify hmac b secret
         \<and> verifyIPN stringify hmac ipnSecret a signature = verifyIPN stringify hmac ipnSecret b signature"
  using sortObject_same_content[OF assms(3,1,2)]
  by (cases ipnSecret) (simp_all add: generateSignature_def verifyIPN_def)

theorem C10_signature_ignores_key_order_witness:
  "wf_value payload_a \<and> wf_value payload_b \<and> same_content payload_a payload_b
   \<and> payload_a \<noteq> payload_b
   \<and> sortObject payload_a = sortObject payload_b
   \<and> generateSignature toy_stringify toy_hmac payload_a ''s3cret'' = ''s3cretfeepayment_id''
   \<and> generateSignature toy_stringify toy_hmac payload_b ''s3cret'' = ''s3cretfeepayment_id''
   \<and> verifyIPN toy_stringify toy_hmac (Some ''s3cret'') payload_a ''s3cretfeepayment_id'' = Inr True
   \<and> verifyIPN toy_stringify toy_hmac (Some ''s3cret'') payload_b ''s3cretfeepayment_id'' = Inr True"
  using C10_signature_ignores_key_order[of payload_a payload_b toy_stringify toy_hmac "''s3cret''"
      "Some ''s3cret''" "''s3cretfeepayment_id''"]
  by (simp add: payload_a_def payload_b_def lookup_def assign_def generateSignature_def verifyIPN_def
      toy_hmac_def insert_commute)

end
